theory Spec2Isabelle
  imports Complex_Main "HOL-Library.Sublist"
begin

unbundle bit_operations_syntax

section \<open>Python exceptions and outcomes\<close>

text \<open>
  The exceptions \<^verbatim>\<open>gevent/libuv/watcher.py\<close> can raise. \<open>UVFuncallError\<close> is the class the
  module declares (a subclass of \<open>ValueError\<close>); \<open>Exception\<close> carries its message.
  \<open>UseAfterCloseError\<close> is the name section 7 of the specification gives to an operation
  on a closed watcher.
\<close>

datatype error =
    UVFuncallError string
  | Exception string
  | TypeError
  | ValueError
  | KeyError
  | AttributeError
  | AssertionError
  | UseAfterCloseError

text \<open>\<open>except ValueError\<close> also catches the subclass \<open>UVFuncallError\<close>.\<close>

fun is_ValueError :: "error \<Rightarrow> bool" where
  "is_ValueError ValueError = True"
| "is_ValueError (UVFuncallError _) = True"
| "is_ValueError _ = False"

text \<open>
  A method that mutates state returns the state it leaves behind together with the
  exception it raised, if any: the state survives a raise, as it does in Python.
\<close>

definition and_then :: "'s \<times> error option \<Rightarrow> ('s \<Rightarrow> 's \<times> error option) \<Rightarrow> 's \<times> error option" where
  "and_then r f = (case r of (s, None) \<Rightarrow> f s | (s, Some e) \<Rightarrow> (s, Some e))"

section \<open>The native loop\<close>

text \<open>
  Modelled from the spec: the native event loop (libuv, reached through
  \<^verbatim>\<open>gevent.libuv._corecffi\<close>) is not part of the source file. Section 6 of the specification
  lists its primitives: init, start, stop, close, ref, unref, hasRef, isClosing and
  wakeupSend; the timer's restart primitive is named in section 4.5. A native handle lives
  at an address; its \<open>type\<close> field is unset until init succeeds, close marks it closing
  (section 4.1: live to closing), start arms it with the kind-specific arguments and stop
  disarms it.
\<close>

type_synonym handle = nat

datatype uv_kind = Poll | Timer | Async | Idle | Check | Prepare | Signal | FsPoll

datatype uv_call =
    UvInit uv_kind handle "int list"
  | UvStart handle "int list"
  | UvStop handle
  | UvClose handle
  | UvRef handle
  | UvUnref handle
  | UvAsyncSend handle
  | UvTimerAgain handle

record uv_handle =
  htype :: "uv_kind option"
  hdata :: "nat option"
  hclosing :: bool
  hactive :: bool
  href :: bool
  harmed :: "int list"
  async_cb :: bool

fun uv_effect :: "uv_call \<Rightarrow> (handle \<Rightarrow> uv_handle) \<Rightarrow> (handle \<Rightarrow> uv_handle)" where
  "uv_effect (UvInit k h a) m =
     m(h := (m h)\<lparr>htype := Some k, hclosing := False, hactive := False, href := True, harmed := []\<rparr>)"
| "uv_effect (UvStart h a) m = m(h := (m h)\<lparr>hactive := True, harmed := a\<rparr>)"
| "uv_effect (UvStop h) m = m(h := (m h)\<lparr>hactive := False\<rparr>)"
| "uv_effect (UvClose h) m = m(h := (m h)\<lparr>hclosing := True, hactive := False\<rparr>)"
| "uv_effect (UvRef h) m = m(h := (m h)\<lparr>href := True\<rparr>)"
| "uv_effect (UvUnref h) m = m(h := (m h)\<lparr>href := False\<rparr>)"
| "uv_effect (UvAsyncSend h) m = m"
| "uv_effect (UvTimerAgain h) m = m"

text \<open>
  The world a watcher lives in: the native handles, the native calls made so far (oldest
  first), the module's global \<open>_closing_handles\<close> and the warnings emitted through
  \<open>warnings.warn\<close>.
\<close>

record world =
  mem :: "handle \<Rightarrow> uv_handle"
  calls :: "uv_call list"
  closing_handles :: "handle set"
  warnings :: "string list"

text \<open>A direct call \<open>libuv.f(...)\<close>: the status it returns, if any, is not looked at.\<close>

definition libuv :: "uv_call \<Rightarrow> 'z world_scheme \<Rightarrow> 'z world_scheme" where
  "libuv c s = s\<lparr>mem := uv_effect c (mem s), calls := calls s @ [c]\<rparr>"

definition uv_is_closing :: "'z world_scheme \<Rightarrow> handle \<Rightarrow> bool" where
  "uv_is_closing s h = hclosing (mem s h)"

definition uv_has_ref :: "'z world_scheme \<Rightarrow> handle \<Rightarrow> bool" where
  "uv_has_ref s h = href (mem s h)"

text \<open>
  What the native library answers is not decided by the watcher module, so it is a
  parameter: the status of each status-returning call (given the calls made before it),
  the error name and message of a status, and Python's \<open>repr\<close> of an argument tuple.
\<close>

record native =
  uv_status :: "uv_call list \<Rightarrow> uv_call \<Rightarrow> int"
  uv_err_name :: "int \<Rightarrow> string"
  uv_strerror :: "int \<Rightarrow> string"
  repr_args :: "uv_call list \<Rightarrow> string"

section \<open>\<open>libuv_error_wrapper\<close>\<close>

text \<open>
  An argument of a wrapped call is either a \<open>watcher\<close> instance (the \<open>self\<close> Python binds
  when the wrapped function is stored on a class) or anything else.
\<close>

datatype 'a pyarg = WatcherObj | Plain 'a

fun is_watcher :: "'a pyarg \<Rightarrow> bool" where
  "is_watcher WatcherObj = True"
| "is_watcher (Plain _) = False"

text \<open>
  \<open>libuv_error_wrapper.__getattr__.wrap\<close>. The native function returns an \<open>int\<close> or
  nothing (\<open>None\<close>); \<open>en\<close> and \<open>se\<close> are \<open>uv_err_name\<close> and \<open>uv_strerror\<close>, \<open>ra\<close> and \<open>rk\<close>
  are \<open>repr\<close> on the positional and the keyword arguments.
\<close>

definition wrap ::
  "(int \<Rightarrow> string) \<Rightarrow> (int \<Rightarrow> string) \<Rightarrow> ('a pyarg list \<Rightarrow> string) \<Rightarrow> ('k \<Rightarrow> string) \<Rightarrow>
   ('a pyarg list \<Rightarrow> 'k \<Rightarrow> int option) \<Rightarrow> 'a pyarg list \<Rightarrow> 'k \<Rightarrow> error + int option" where
  "wrap en se ra rk libuv_func args kwargs =
     (let args = (if args \<noteq> [] \<and> is_watcher (hd args) then tl args else args);
          res = libuv_func args kwargs
      in if res \<noteq> None \<and> the res < 0
         then Inl (UVFuncallError
                (en (the res) @ '' '' @ se (the res) @ '' Args: '' @ ra args @ '' KWARGS: '' @ rk kwargs))
         else Inr res)"

text \<open>
  A wrapped call made from a watcher method (\<open>self._watcher_init\<close>, \<open>self._watcher_start\<close>,
  \<open>self._watcher_stop\<close>): \<open>self\<close> comes first and is stripped; a negative status raises and
  the call, though made, has left the handles as they were; otherwise the call takes effect.
\<close>

definition LIB :: "native \<Rightarrow> uv_call \<Rightarrow> 'z world_scheme \<Rightarrow> 'z world_scheme \<times> error option" where
  "LIB nv c s =
     (case wrap (uv_err_name nv) (uv_strerror nv)
             (\<lambda>as. repr_args nv (concat (map (\<lambda>a. case a of Plain x \<Rightarrow> [x] | WatcherObj \<Rightarrow> []) as)))
             (\<lambda>_. ''{}'')
             (\<lambda>_ _. Some (uv_status nv (calls s) c)) [WatcherObj, Plain c] () of
        Inl e \<Rightarrow> (s\<lparr>calls := calls s @ [c]\<rparr>, Some e)
      | Inr _ \<Rightarrow> (libuv c s, None))"

section \<open>Closing a native handle\<close>

text \<open>
  \<open>watcher._watcher_ffi_close\<close> (a class method: it takes the native handle). The handle
  is closed only if its \<open>type\<close> field is set and it is not closing yet; its \<open>data\<close> field is
  cleared in every case.
\<close>

definition watcher_ffi_close :: "handle \<Rightarrow> 'z world_scheme \<Rightarrow> 'z world_scheme" where
  "watcher_ffi_close ffi_watcher s =
     (let s1 = (if htype (mem s ffi_watcher) \<noteq> None \<and> \<not> uv_is_closing s ffi_watcher
                then libuv (UvClose ffi_watcher)
                       (s\<lparr>closing_handles := insert ffi_watcher (closing_handles s)\<rparr>)
                else s)
      in s1\<lparr>mem := (mem s1)(ffi_watcher := (mem s1 ffi_watcher)\<lparr>hdata := None\<rparr>)\<rparr>)"

text \<open>\<open>_uv_close_callback\<close>: \<open>set.remove\<close> raises \<open>KeyError\<close> on a missing element.\<close>

definition uv_close_callback :: "handle \<Rightarrow> 'z world_scheme \<Rightarrow> 'z world_scheme \<times> error option" where
  "uv_close_callback h s =
     (if h \<in> closing_handles s then (s\<lparr>closing_handles := closing_handles s - {h}\<rparr>, None)
      else (s, Some KeyError))"

text \<open>A handle is live when it has been initialised and no close has been requested.\<close>

definition live :: "'z world_scheme \<Rightarrow> handle \<Rightarrow> bool" where
  "live s h = (htype (mem s h) \<noteq> None \<and> \<not> hclosing (mem s h))"

text \<open>A world with no handle initialised and nothing called yet.\<close>

definition world0 :: world where
  "world0 = \<lparr>mem = (\<lambda>_. \<lparr>htype = None, hdata = None, hclosing = False, hactive = False,
                         href = False, harmed = [], async_cb = False\<rparr>),
            calls = [], closing_handles = {}, warnings = []\<rparr>"

definition native_ok :: native where
  "native_ok = \<lparr>uv_status = (\<lambda>_ _. 0), uv_err_name = (\<lambda>_. ''''), uv_strerror = (\<lambda>_. ''''),
               repr_args = (\<lambda>_. ''()'')\<rparr>"

section \<open>The watcher base class\<close>

text \<open>
  A callback is known by its identity; the arguments it is stored with are plain values.
\<close>

type_synonym cb = nat

datatype pyval = IntV int | StrV string | NoneV

text \<open>
  The states of a watcher (section 3 of the specification) and the watcher object: the
  class attributes \<open>_watcher_type\<close>, the address reserved for its native handle, the
  arguments of its native init, and the instance attributes \<open>_watcher\<close>, \<open>_callback\<close>,
  \<open>_args\<close> and \<open>_handle\<close> (here: whether it is set). The record extends the world: a state is
  the native layer together with one watcher object.
\<close>

datatype wstate = Uninitialized | Stopped | Active | Closed

record watcher = world +
  w_kind :: uv_kind
  w_slot :: handle
  w_init_args :: "int list"
  w_state :: wstate
  w_watcher :: "handle option"
  w_callback :: "cb option"
  w_args :: "pyval list"
  w_handle :: bool

text \<open>
  \<open>watcher._watcher_ffi_init\<close>, \<open>_watcher_ffi_start\<close> and \<open>_watcher_ffi_stop\<close>: the wrapped
  native init, start and stop of the watcher's kind. Passing \<open>None\<close> where the native
  function takes a handle is a \<open>TypeError\<close>; \<open>_watcher_ffi_stop\<close> checks \<open>self._watcher\<close>
  first.
\<close>

definition watcher_ffi_init ::
  "native \<Rightarrow> int list \<Rightarrow> 'z watcher_scheme \<Rightarrow> 'z watcher_scheme \<times> error option" where
  "watcher_ffi_init nv args s =
     (case w_watcher s of
        None \<Rightarrow> (s, Some TypeError)
      | Some h \<Rightarrow> LIB nv (UvInit (w_kind s) h args) s)"

definition watcher_ffi_start :: "native \<Rightarrow> 'z watcher_scheme \<Rightarrow> 'z watcher_scheme \<times> error option" where
  "watcher_ffi_start nv s =
     (case w_watcher s of
        None \<Rightarrow> (s, Some TypeError)
      | Some h \<Rightarrow> LIB nv (UvStart h []) s)"

definition watcher_ffi_stop :: "native \<Rightarrow> 'z watcher_scheme \<Rightarrow> 'z watcher_scheme \<times> error option" where
  "watcher_ffi_stop nv s =
     (case w_watcher s of
        None \<Rightarrow> (s, None)
      | Some h \<Rightarrow> LIB nv (UvStop h) s)"

text \<open>
  Modelled from the spec: the decorator \<open>only_if_watcher\<close> comes from \<open>gevent._ffi.watcher\<close>,
  which is not among the sources. Section 4.2: (un)ref is only meaningful while the handle
  is live and is a no-op, not an error, on a watcher that has none.
\<close>

definition only_if_watcher ::
  "('z watcher_scheme \<Rightarrow> 'z watcher_scheme) \<Rightarrow> 'z watcher_scheme \<Rightarrow> 'z watcher_scheme" where
  "only_if_watcher func s = (if w_watcher s \<noteq> None then func s else s)"

text \<open>\<open>watcher._watcher_ffi_ref\<close>, \<open>_watcher_ffi_unref\<close>, \<open>_get_ref\<close> and \<open>_set_ref\<close>.\<close>

definition watcher_ffi_ref :: "'z watcher_scheme \<Rightarrow> 'z watcher_scheme" where
  "watcher_ffi_ref = only_if_watcher (\<lambda>s. libuv (UvRef (the (w_watcher s))) s)"

definition watcher_ffi_unref :: "'z watcher_scheme \<Rightarrow> 'z watcher_scheme" where
  "watcher_ffi_unref = only_if_watcher (\<lambda>s. libuv (UvUnref (the (w_watcher s))) s)"

definition get_ref :: "'z watcher_scheme \<Rightarrow> bool option" where
  "get_ref s =
     (case w_watcher s of
        None \<Rightarrow> None
      | Some h \<Rightarrow> Some (if uv_has_ref s h then True else False))"

definition set_ref :: "bool \<Rightarrow> 'z watcher_scheme \<Rightarrow> 'z watcher_scheme \<times> error option" where
  "set_ref v s = (if v then (watcher_ffi_ref s, None) else (watcher_ffi_unref s, None))"

text \<open>
  Modelled from the spec: \<open>active\<close>, \<open>start\<close>, \<open>stop\<close> and \<open>close\<close> are inherited from
  \<open>gevent._ffi.watcher\<close>, which is not among the sources; the hooks they call
  (\<open>_watcher_ffi_init\<close>, \<open>_watcher_ffi_start\<close>, \<open>_watcher_ffi_stop\<close>, \<open>_watcher_ffi_close\<close>) are,
  and are passed in where a subclass overrides them. Section 4.2:
  \<^item> \<open>start\<close> requires a watcher that is not closed; the first start allocates and
    initialises the native handle (a failure leaves the watcher uninitialised); it arms the
    native handle, stores callback and arguments and makes the watcher active;
  \<^item> \<open>stop\<close> is a no-op unless the watcher is active; it calls the native stop, clears
    callback and arguments and makes the watcher stopped, keeping the native handle;
  \<^item> \<open>close\<close> stops an active watcher, requests the close of the native handle and makes
    the watcher closed; it can be called again; a failure of the native stop inside it is
    not re-raised (section 7).
  The comment in \<open>_watcher_ffi_stop\<close> records that a closed watcher has dropped
  \<open>self._watcher\<close>. A \<open>start\<close> on an active watcher leaves it active and arms the native
  handle again: \<open>timer.again\<close> relies on it to reach the native restart (section 4.5).
\<close>

definition watcher_active :: "'z watcher_scheme \<Rightarrow> bool" where
  "watcher_active s = (w_state s = Active)"

definition watcher_start ::
  "('z watcher_scheme \<Rightarrow> 'z watcher_scheme \<times> error option) \<Rightarrow>
   ('z watcher_scheme \<Rightarrow> 'z watcher_scheme \<times> error option) \<Rightarrow>
   cb \<Rightarrow> pyval list \<Rightarrow> 'z watcher_scheme \<Rightarrow> 'z watcher_scheme \<times> error option" where
  "watcher_start ffi_init ffi_start callback args s =
     (if w_state s = Closed then (s, Some UseAfterCloseError)
      else and_then
        (if w_state s = Uninitialized
         then (case ffi_init (s\<lparr>w_watcher := Some (w_slot s)\<rparr>) of
                 (s1, None) \<Rightarrow> (s1\<lparr>w_state := Stopped\<rparr>, None)
               | (s1, Some e) \<Rightarrow> (s1\<lparr>w_watcher := None\<rparr>, Some e))
         else (s, None))
        (\<lambda>s1. and_then (ffi_start s1)
           (\<lambda>s2. (s2\<lparr>w_callback := Some callback, w_args := args, w_handle := True,
                       w_state := Active\<rparr>, None))))"

definition watcher_stop ::
  "('z watcher_scheme \<Rightarrow> 'z watcher_scheme \<times> error option) \<Rightarrow>
   'z watcher_scheme \<Rightarrow> 'z watcher_scheme \<times> error option" where
  "watcher_stop ffi_stop s =
     (if w_state s \<noteq> Active then (s, None)
      else and_then (ffi_stop s)
        (\<lambda>s1. (s1\<lparr>w_callback := None, w_args := [], w_handle := False, w_state := Stopped\<rparr>, None)))"

definition watcher_close ::
  "('z watcher_scheme \<Rightarrow> 'z watcher_scheme \<times> error option) \<Rightarrow>
   'z watcher_scheme \<Rightarrow> 'z watcher_scheme" where
  "watcher_close ffi_stop s =
     (if w_state s = Closed then s
      else let s1 = fst (watcher_stop ffi_stop s);
               s2 = (case w_watcher s1 of None \<Rightarrow> s1 | Some h \<Rightarrow> watcher_ffi_close h s1)
           in s2\<lparr>w_watcher := None, w_state := Closed\<rparr>)"

text \<open>\<open>start\<close> and \<open>stop\<close> of a watcher class that overrides no hook (idle, check, prepare).\<close>

definition start_watcher ::
  "native \<Rightarrow> cb \<Rightarrow> pyval list \<Rightarrow> 'z watcher_scheme \<Rightarrow> 'z watcher_scheme \<times> error option" where
  "start_watcher nv = watcher_start (\<lambda>s. watcher_ffi_init nv (w_init_args s) s) (watcher_ffi_start nv)"

definition stop_watcher :: "native \<Rightarrow> 'z watcher_scheme \<Rightarrow> 'z watcher_scheme \<times> error option" where
  "stop_watcher nv = watcher_stop (watcher_ffi_stop nv)"

section \<open>The cross-thread wakeup watcher \<open>async_\<close>\<close>

text \<open>
  \<open>async_._watcher_ffi_init\<close>, \<open>_watcher_ffi_start\<close>, \<open>_watcher_ffi_stop\<close> and \<open>send\<close>. Start and
  stop write the \<open>async_cb\<close> field of the native handle (an attribute of \<open>None\<close> is an
  \<open>AttributeError\<close>); \<open>send\<close> raises when the handle is closing.
\<close>

definition async_watcher_ffi_init :: "native \<Rightarrow> 'z watcher_scheme \<Rightarrow> 'z watcher_scheme \<times> error option" where
  "async_watcher_ffi_init nv s =
     (case w_watcher s of
        None \<Rightarrow> (s, Some TypeError)
      | Some h \<Rightarrow> LIB nv (UvInit Async h []) s)"

definition async_watcher_ffi_start :: "'z watcher_scheme \<Rightarrow> 'z watcher_scheme \<times> error option" where
  "async_watcher_ffi_start s =
     (case w_watcher s of
        None \<Rightarrow> (s, Some AttributeError)
      | Some h \<Rightarrow> (s\<lparr>mem := (mem s)(h := (mem s h)\<lparr>async_cb := True\<rparr>)\<rparr>, None))"

definition async_watcher_ffi_stop :: "'z watcher_scheme \<Rightarrow> 'z watcher_scheme \<times> error option" where
  "async_watcher_ffi_stop s =
     (case w_watcher s of
        None \<Rightarrow> (s, Some AttributeError)
      | Some h \<Rightarrow> (watcher_ffi_unref (s\<lparr>mem := (mem s)(h := (mem s h)\<lparr>async_cb := False\<rparr>)\<rparr>), None))"

definition async_send :: "'z watcher_scheme \<Rightarrow> 'z watcher_scheme \<times> error option" where
  "async_send s =
     (case w_watcher s of
        None \<Rightarrow> (s, Some TypeError)
      | Some h \<Rightarrow>
          if uv_is_closing s h then (s, Some (Exception ''Closing handle''))
          else (libuv (UvAsyncSend h) s, None))"

definition async_start :: "native \<Rightarrow> cb \<Rightarrow> pyval list \<Rightarrow> 'z watcher_scheme \<Rightarrow> 'z watcher_scheme \<times> error option" where
  "async_start nv = watcher_start (async_watcher_ffi_init nv) async_watcher_ffi_start"

definition async_stop :: "'z watcher_scheme \<Rightarrow> 'z watcher_scheme \<times> error option" where
  "async_stop = watcher_stop async_watcher_ffi_stop"

definition async_close :: "'z watcher_scheme \<Rightarrow> 'z watcher_scheme" where
  "async_close = watcher_close async_watcher_ffi_stop"

text \<open>A watcher object of the given kind, just constructed, in the empty world.\<close>

definition watcher0 :: "uv_kind \<Rightarrow> handle \<Rightarrow> int list \<Rightarrow> watcher" where
  "watcher0 k slot ia =
     \<lparr>mem = mem world0, calls = [], closing_handles = {}, warnings = [],
      w_kind = k, w_slot = slot, w_init_args = ia, w_state = Uninitialized, w_watcher = None,
      w_callback = None, w_args = [], w_handle = False\<rparr>"

section \<open>The timer watcher\<close>

text \<open>
  Durations are Python floats in the source; they are modelled as real numbers, so that
  \<open>0.001\<close> is exactly one millisecond. \<open>int(x)\<close> truncates towards zero.
\<close>

definition py_int :: "real \<Rightarrow> int" where
  "py_int x = (if 0 \<le> x then \<lfloor>x\<rfloor> else \<lceil>x\<rceil>)"

text \<open>
  The timer object: the \<open>(after, repeat)\<close> it was constructed with (the \<open>args\<close> handed to
  \<open>_watcher_ffi_init\<close>), and the attributes \<open>_after\<close>, \<open>_repeat\<close> and \<open>_again\<close>.
\<close>

record timer = watcher +
  t_init_args :: "real \<times> real"
  t_after :: real
  t_repeat :: real
  t_again :: bool

definition clamp_warning :: string where
  "clamp_warning = ''libuv only supports millisecond timer resolution; all times less will be set to 1 ms''"

text \<open>\<open>timer._watcher_ffi_init\<close>.\<close>

definition timer_watcher_ffi_init ::
  "native \<Rightarrow> real \<times> real \<Rightarrow> 'z timer_scheme \<Rightarrow> 'z timer_scheme \<times> error option" where
  "timer_watcher_ffi_init nv args s =
     and_then
       (case w_watcher s of
          None \<Rightarrow> (s, Some TypeError)
        | Some h \<Rightarrow> LIB nv (UvInit Timer h []) s)
       (\<lambda>s1.
          let s2 = s1\<lparr>t_after := fst args, t_repeat := snd args\<rparr>;
              s3 = (if t_after s2 \<noteq> 0 \<and> t_after s2 < 0.001
                    then s2\<lparr>warnings := warnings s2 @ [clamp_warning], t_after := 0.001\<rparr>
                    else s2);
              s4 = (if t_repeat s3 \<noteq> 0 \<and> t_repeat s3 < 0.001
                    then s3\<lparr>warnings := warnings s3 @ [clamp_warning], t_repeat := 0.001\<rparr>
                    else s3)
          in (s4, None))"

text \<open>
  \<open>timer._watcher_ffi_start\<close>: \<open>uv_timer_again\<close> is called directly; the wrapped
  \<open>uv_timer_start\<close> gets the durations in whole milliseconds, and a \<open>ValueError\<close> it raises
  is turned into a \<open>TypeError\<close>.
\<close>

definition timer_watcher_ffi_start :: "native \<Rightarrow> 'z timer_scheme \<Rightarrow> 'z timer_scheme \<times> error option" where
  "timer_watcher_ffi_start nv s =
     (case w_watcher s of
        None \<Rightarrow> (s, Some TypeError)
      | Some h \<Rightarrow>
          if t_again s then (libuv (UvTimerAgain h) s, None)
          else (case LIB nv (UvStart h [py_int (t_after s * 1000), py_int (t_repeat s * 1000)]) s of
                  (s1, Some e) \<Rightarrow> (s1, Some (if is_ValueError e then TypeError else e))
                | (s1, None) \<Rightarrow> (s1, None)))"

definition timer_start ::
  "native \<Rightarrow> cb \<Rightarrow> pyval list \<Rightarrow> 'z timer_scheme \<Rightarrow> 'z timer_scheme \<times> error option" where
  "timer_start nv = watcher_start (\<lambda>s. timer_watcher_ffi_init nv (t_init_args s) s) (timer_watcher_ffi_start nv)"

definition timer_stop :: "native \<Rightarrow> 'z timer_scheme \<Rightarrow> 'z timer_scheme \<times> error option" where
  "timer_stop nv = watcher_stop (watcher_ffi_stop nv)"

text \<open>
  \<open>timer.again\<close>. \<open>del self._again\<close> in the \<open>finally\<close> block uncovers the class attribute
  \<open>_again = False\<close>, whether \<open>start\<close> raised or not.
\<close>

definition timer_again ::
  "native \<Rightarrow> cb \<Rightarrow> pyval list \<Rightarrow> 'z timer_scheme \<Rightarrow> 'z timer_scheme \<times> error option" where
  "timer_again nv callback args s =
     (if \<not> watcher_active s then timer_start nv callback args s
      else (case timer_start nv callback args (s\<lparr>t_again := True\<rparr>) of
              (s1, r) \<Rightarrow> (s1\<lparr>t_again := False\<rparr>, r)))"

text \<open>A timer just constructed with \<open>after\<close> and \<open>repeat\<close>, in the empty world.\<close>

definition timer0 :: "real \<Rightarrow> real \<Rightarrow> handle \<Rightarrow> timer" where
  "timer0 after repeat slot =
     \<lparr>mem = mem world0, calls = [], closing_handles = {}, warnings = [],
      w_kind = Timer, w_slot = slot, w_init_args = [], w_state = Uninitialized, w_watcher = None,
      w_callback = None, w_args = [], w_handle = False,
      t_init_args = (after, repeat), t_after = after, t_repeat = repeat, t_again = False\<rparr>"

section \<open>The I/O watcher and its multiplexed sub-watchers\<close>

text \<open>
  \<open>io._multiplexwatcher\<close>: the attributes \<open>_events\<close>, \<open>callback\<close>, \<open>args\<close> (\<open>None\<close> after
  \<open>stop\<close>), \<open>pass_events\<close> (by its truth value) and \<open>_watcher_ref\<close> (the state holds one
  \<open>io\<close> object, so the reference is either that object or \<open>None\<close>: whether it is set).
\<close>

record multiplexwatcher =
  mw_events :: int
  mw_callback :: "cb option"
  mw_args :: "pyval list option"
  mw_pass_events :: bool
  mw_watcher_ref :: bool

text \<open>The property \<open>_multiplexwatcher.active\<close>.\<close>

definition mw_active :: "multiplexwatcher \<Rightarrow> bool" where
  "mw_active w = (mw_callback w \<noteq> None)"

text \<open>
  The \<open>io\<close> object: \<open>_fd\<close>, \<open>_events\<close> and \<open>_multiplex_watchers\<close>, a list of references to
  sub-watcher objects (\<open>None\<close> once \<open>close\<close> has deleted the instance attribute and the
  class attribute \<open>()\<close> shows through). The sub-watcher objects live in \<open>objs\<close>; a
  reference is an index into it, so that the caller and the list share each object.
\<close>

record io = watcher +
  io_fd :: int
  io_events :: int
  io_multiplex_watchers :: "nat list option"
  objs :: "multiplexwatcher list"

text \<open>What a loop over \<open>self._multiplex_watchers\<close> visits.\<close>

definition multiplex_watchers :: "'z io_scheme \<Rightarrow> nat list" where
  "multiplex_watchers s = (case io_multiplex_watchers s of None \<Rightarrow> [] | Some ws \<Rightarrow> ws)"

text \<open>\<open>io._watcher_ffi_start\<close>, and \<open>start\<close> and \<open>stop\<close> as \<open>io\<close> inherits them.\<close>

definition io_watcher_ffi_start :: "native \<Rightarrow> 'z io_scheme \<Rightarrow> 'z io_scheme \<times> error option" where
  "io_watcher_ffi_start nv s =
     (case w_watcher s of
        None \<Rightarrow> (s, Some TypeError)
      | Some h \<Rightarrow> LIB nv (UvStart h [io_events s]) s)"

definition io_start ::
  "native \<Rightarrow> cb \<Rightarrow> pyval list \<Rightarrow> 'z io_scheme \<Rightarrow> 'z io_scheme \<times> error option" where
  "io_start nv = watcher_start (\<lambda>s. watcher_ffi_init nv (w_init_args s) s) (io_watcher_ffi_start nv)"

definition io_stop :: "native \<Rightarrow> 'z io_scheme \<Rightarrow> 'z io_scheme \<times> error option" where
  "io_stop nv = watcher_stop (watcher_ffi_stop nv)"

text \<open>\<open>io._set_events\<close>.\<close>

definition io_set_events :: "native \<Rightarrow> int \<Rightarrow> 'z io_scheme \<Rightarrow> 'z io_scheme \<times> error option" where
  "io_set_events nv events s =
     (if events = io_events s then (s, None)
      else let s1 = s\<lparr>io_events := events\<rparr> in
        if watcher_active s1 then
          (if \<not> w_handle s1 then (s1, Some AssertionError)
           else (case w_watcher s1 of
                   None \<Rightarrow> (s1, Some TypeError)
                 | Some h \<Rightarrow> LIB nv (UvStart h [io_events s1]) s1))
        else (s1, None))"

text \<open>\<open>io._calc_and_update_events\<close>.\<close>

definition io_calc_and_update_events :: "native \<Rightarrow> 'z io_scheme \<Rightarrow> 'z io_scheme \<times> error option" where
  "io_calc_and_update_events nv s =
     io_set_events nv
       (fold (\<lambda>watcher events. events OR mw_events (objs s ! watcher)) (multiplex_watchers s) 0) s"

text \<open>
  \<open>io.multiplex\<close>: the new sub-watcher object is the next one in \<open>objs\<close>; its reference is
  returned. Appending to the class attribute \<open>()\<close> is an \<open>AttributeError\<close>.
\<close>

definition io_multiplex :: "native \<Rightarrow> int \<Rightarrow> 'z io_scheme \<Rightarrow> 'z io_scheme \<times> (error + nat)" where
  "io_multiplex nv events s =
     (case io_multiplex_watchers s of
        None \<Rightarrow> (s, Inl AttributeError)
      | Some ws \<Rightarrow>
          let watcher = length (objs s);
              s1 = s\<lparr>objs := objs s @ [\<lparr>mw_events = events, mw_callback = None, mw_args = Some [],
                                        mw_pass_events = False, mw_watcher_ref = True\<rparr>],
                     io_multiplex_watchers := Some (ws @ [watcher])\<rparr>
          in (case io_calc_and_update_events nv s1 of
                (s2, None) \<Rightarrow> (s2, Inr watcher)
              | (s2, Some e) \<Rightarrow> (s2, Inl e)))"

text \<open>\<open>io.close\<close>: deleting an attribute that is not there is an \<open>AttributeError\<close>.\<close>

definition io_close :: "native \<Rightarrow> 'z io_scheme \<Rightarrow> 'z io_scheme \<times> error option" where
  "io_close nv s =
     (let s1 = watcher_close (watcher_ffi_stop nv) s
      in case io_multiplex_watchers s1 of
           None \<Rightarrow> (s1, Some AttributeError)
         | Some _ \<Rightarrow> (s1\<lparr>io_multiplex_watchers := None\<rparr>, None))"

text \<open>\<open>io._no_more_watchers\<close> does nothing.\<close>

definition io_no_more_watchers :: "'z io_scheme \<Rightarrow> 'z io_scheme \<times> error option" where
  "io_no_more_watchers s = (s, None)"

text \<open>
  \<open>io._multiplex_closed\<close>: \<open>list.remove\<close> raises \<open>ValueError\<close> when the element is missing,
  and a tuple has no \<open>remove\<close>.
\<close>

definition io_multiplex_closed :: "native \<Rightarrow> nat \<Rightarrow> 'z io_scheme \<Rightarrow> 'z io_scheme \<times> error option" where
  "io_multiplex_closed nv watcher s =
     (case io_multiplex_watchers s of
        None \<Rightarrow> (s, Some AttributeError)
      | Some ws \<Rightarrow>
          if watcher \<notin> set ws then (s, Some ValueError)
          else let s1 = s\<lparr>io_multiplex_watchers := Some (remove1 watcher ws)\<rparr> in
            if multiplex_watchers s1 = []
            then and_then (io_stop nv s1)
                   (\<lambda>s2. and_then (io_no_more_watchers s2) (\<lambda>s3. io_close nv s3))
            else io_calc_and_update_events nv s1)"

text \<open>
  \<open>io._io_start\<close> and \<open>io._io_maybe_stop\<close>. The callback the \<open>io\<close> object starts itself with
  is its own bound method \<open>_io_callback\<close>.
\<close>

definition io_callback_id :: cb where
  "io_callback_id = 0"

definition io_io_start :: "native \<Rightarrow> 'z io_scheme \<Rightarrow> 'z io_scheme \<times> error option" where
  "io_io_start nv s = io_start nv io_callback_id [] s"

definition io_io_maybe_stop :: "native \<Rightarrow> 'z io_scheme \<Rightarrow> 'z io_scheme \<times> error option" where
  "io_io_maybe_stop nv s =
     (if list_ex (\<lambda>w. mw_callback (objs s ! w) \<noteq> None) (multiplex_watchers s) then (s, None)
      else io_stop nv s)"

text \<open>
  \<open>_multiplexwatcher.start\<close>, \<open>stop\<close> and \<open>close\<close>, on the sub-watcher object with reference
  \<open>i\<close> (a reference \<open>multiplex\<close> has returned: \<open>i < length (objs s)\<close>).
\<close>

definition multiplexwatcher_start ::
  "native \<Rightarrow> nat \<Rightarrow> cb option \<Rightarrow> pyval list \<Rightarrow> bool \<Rightarrow> 'z io_scheme \<Rightarrow> 'z io_scheme \<times> error option" where
  "multiplexwatcher_start nv i callback args pass_events s =
     (let s1 = s\<lparr>objs := (objs s)[i := (objs s ! i)\<lparr>mw_pass_events := pass_events,
                      mw_callback := callback, mw_args := Some args\<rparr>]\<rparr>
      in if mw_watcher_ref (objs s1 ! i) \<and> \<not> watcher_active s1 then io_io_start nv s1
         else (s1, None))"

definition multiplexwatcher_stop :: "native \<Rightarrow> nat \<Rightarrow> 'z io_scheme \<Rightarrow> 'z io_scheme \<times> error option" where
  "multiplexwatcher_stop nv i s =
     (let s1 = s\<lparr>objs := (objs s)[i := (objs s ! i)\<lparr>mw_callback := None, mw_pass_events := False,
                      mw_args := None\<rparr>]\<rparr>
      in if mw_watcher_ref (objs s1 ! i) then io_io_maybe_stop nv s1 else (s1, None))"

definition multiplexwatcher_close :: "native \<Rightarrow> nat \<Rightarrow> 'z io_scheme \<Rightarrow> 'z io_scheme \<times> error option" where
  "multiplexwatcher_close nv i s =
     and_then (if mw_watcher_ref (objs s ! i) then io_multiplex_closed nv i s else (s, None))
       (\<lambda>s1. (s1\<lparr>objs := (objs s1)[i := (objs s1 ! i)\<lparr>mw_watcher_ref := False\<rparr>]\<rparr>, None))"

text \<open>An \<open>io\<close> object just constructed for \<open>fd\<close> with mask \<open>events\<close>, in the empty world.\<close>

definition io0 :: "int \<Rightarrow> int \<Rightarrow> handle \<Rightarrow> io" where
  "io0 fd events slot =
     \<lparr>mem = mem world0, calls = [], closing_handles = {}, warnings = [],
      w_kind = Poll, w_slot = slot, w_init_args = [fd], w_state = Uninitialized, w_watcher = None,
      w_callback = None, w_args = [], w_handle = False,
      io_fd = fd, io_events = events, io_multiplex_watchers = Some [], objs = []\<rparr>"

text \<open>
  The calls a user can make on one \<open>io\<close> object and the sub-watchers it hands out, and a
  sequence of them, which ends at the first call that raises. A call on a reference that
  \<open>multiplex\<close> has not returned cannot be written in Python; it is skipped.
\<close>

datatype io_op = Multiplex int | Start nat "cb option" "pyval list" bool | Stop nat | Close nat

fun io_step :: "native \<Rightarrow> io_op \<Rightarrow> io \<Rightarrow> io \<times> error option" where
  "io_step nv (Multiplex events) s =
     (case io_multiplex nv events s of (s1, Inl e) \<Rightarrow> (s1, Some e) | (s1, Inr _) \<Rightarrow> (s1, None))"
| "io_step nv (Start i callback args pass_events) s =
     (if i < length (objs s) then multiplexwatcher_start nv i callback args pass_events s else (s, None))"
| "io_step nv (Stop i) s =
     (if i < length (objs s) then multiplexwatcher_stop nv i s else (s, None))"
| "io_step nv (Close i) s =
     (if i < length (objs s) then multiplexwatcher_close nv i s else (s, None))"

fun io_run :: "native \<Rightarrow> io_op list \<Rightarrow> io \<Rightarrow> io \<times> error option" where
  "io_run nv [] s = (s, None)"
| "io_run nv (x # xs) s = and_then (io_step nv x s) (io_run nv xs)"

text \<open>
  The mask armed on the native handle (none when the handle is not armed), the union of
  the masks of all sub-watchers registered on the \<open>io\<close> object, and the union over those of
  them that are active (started).
\<close>

definition armed_events :: "'z io_scheme \<Rightarrow> int option" where
  "armed_events s =
     (case w_watcher s of
        None \<Rightarrow> None
      | Some h \<Rightarrow> if hactive (mem s h) then (case harmed (mem s h) of [ev] \<Rightarrow> Some ev | _ \<Rightarrow> None)
                  else None)"

definition registered_events :: "'z io_scheme \<Rightarrow> int" where
  "registered_events s = fold (\<lambda>w ev. ev OR mw_events (objs s ! w)) (multiplex_watchers s) 0"

definition active_events :: "'z io_scheme \<Rightarrow> int" where
  "active_events s =
     fold (\<lambda>w ev. ev OR mw_events (objs s ! w))
       (filter (\<lambda>w. mw_active (objs s ! w)) (multiplex_watchers s)) 0"

text \<open>
  Modelled from the spec: the event bits \<open>UV_READABLE\<close>, \<open>UV_WRITABLE\<close> and \<open>UV_DISCONNECT\<close>
  are constants of the native library's header, which is not among the sources; section 3
  names them READ, WRITE and DISCONNECT, the members of a bit set.
\<close>

definition UV_READABLE :: int where
  "UV_READABLE = 1"

definition UV_WRITABLE :: int where
  "UV_WRITABLE = 2"

definition UV_DISCONNECT :: int where
  "UV_DISCONNECT = 4"

text \<open>\<open>io.EVENT_MASK\<close>.\<close>

definition EVENT_MASK :: int where
  "EVENT_MASK = UV_READABLE OR UV_WRITABLE OR UV_DISCONNECT"

text \<open>
  What holds of an \<open>io\<close> object between calls. The list and the objects agree: the list
  holds, once each, exactly the references of the sub-watchers whose \<open>_watcher_ref\<close> is set.
\<close>

definition refs_ok :: "io \<Rightarrow> bool" where
  "refs_ok s =
     ((\<forall>i\<in>set (multiplex_watchers s). i < length (objs s) \<and> mw_watcher_ref (objs s ! i)) \<and>
      (\<forall>i<length (objs s). mw_watcher_ref (objs s ! i) \<longrightarrow> i \<in> set (multiplex_watchers s)) \<and>
      distinct (multiplex_watchers s))"

text \<open>
  The watcher state and the native handle agree: a closed watcher has deleted its list
  and dropped its handle, a started one holds the handle at its slot, and that handle is
  armed exactly while the watcher is active, with the stored mask \<open>_events\<close>.
\<close>

definition life_ok :: "io \<Rightarrow> bool" where
  "life_ok s =
     ((w_state s = Closed \<longleftrightarrow> io_multiplex_watchers s = None) \<and>
      (w_state s = Uninitialized \<or> w_state s = Closed \<longrightarrow> w_watcher s = None) \<and>
      (w_state s = Stopped \<or> w_state s = Active \<longrightarrow> w_watcher s = Some (w_slot s)) \<and>
      (w_state s = Active \<longrightarrow>
         w_handle s \<and> hactive (mem s (w_slot s)) \<and> harmed (mem s (w_slot s)) = [io_events s]) \<and>
      (w_state s \<noteq> Active \<longrightarrow> \<not> hactive (mem s (w_slot s))))"

text \<open>An active \<open>io\<close> object has a sub-watcher registered.\<close>

definition act_ok :: "io \<Rightarrow> bool" where
  "act_ok s = (w_state s = Active \<longrightarrow> multiplex_watchers s \<noteq> [])"

text \<open>While a sub-watcher is registered, the stored mask is the union of the registered masks.\<close>

definition mask_ok :: "io \<Rightarrow> bool" where
  "mask_ok s = (multiplex_watchers s \<noteq> [] \<longrightarrow> io_events s = registered_events s)"

definition io_inv :: "io \<Rightarrow> bool" where
  "io_inv s = (life_ok s \<and> act_ok s \<and> refs_ok s \<and> mask_ok s)"









section \<open>Simulated watchers (fork, child)\<close>

text \<open>
  \<open>_SimulatedWithAsyncMixin.__init__\<close> and \<open>close\<close>. The state holds the owned async
  watcher. \<open>loop_async\<close> is \<open>loop.async_()\<close>, which creates it, and \<open>super_init\<close> is the rest
  of the initialisation (\<open>super().__init__\<close>); both belong to modules that are not among the
  sources and are parameters. When \<open>super_init\<close> raises, the async watcher is closed and the
  same exception is raised again.
\<close>

definition simulated_init ::
  "('z watcher_scheme \<Rightarrow> 'z watcher_scheme \<times> error option) \<Rightarrow>
   ('z watcher_scheme \<Rightarrow> 'z watcher_scheme \<times> error option) \<Rightarrow>
   'z watcher_scheme \<Rightarrow> 'z watcher_scheme \<times> error option" where
  "simulated_init loop_async super_init s =
     (case loop_async s of
        (s0, Some e) \<Rightarrow> (s0, Some e)
      | (s0, None) \<Rightarrow>
          (case super_init s0 of
             (s1, None) \<Rightarrow> (s1, None)
           | (s1, Some e) \<Rightarrow> (async_close s1, Some e)))"

definition simulated_close :: "'z watcher_scheme \<Rightarrow> 'z watcher_scheme \<times> error option" where
  "simulated_close s = (async_close s, None)"

section \<open>Lemmas on the native layer\<close>

lemma and_then_None [simp]: "and_then (s, None) f = f s"
  by (simp add: and_then_def)

lemma and_then_Some [simp]: "and_then (s, Some e) f = (s, Some e)"
  by (simp add: and_then_def)

lemma LIB_eq:
  "LIB nv c s =
     (if uv_status nv (calls s) c < 0
      then (s\<lparr>calls := calls s @ [c]\<rparr>,
            Some (UVFuncallError (uv_err_name nv (uv_status nv (calls s) c) @ '' '' @
                       uv_strerror nv (uv_status nv (calls s) c) @ '' Args: '' @
                       repr_args nv [c] @ '' KWARGS: '' @ ''{}'')))
      else (libuv c s, None))"
  by (simp add: LIB_def wrap_def Let_def)

lemma LIB_ok [simp]: "LIB native_ok c s = (libuv c s, None)"
  by (simp add: LIB_eq native_ok_def)

lemma calls_libuv [simp]: "calls (libuv c s) = calls s @ [c]"
  by (simp add: libuv_def)

lemma mem_libuv [simp]: "mem (libuv c s) = uv_effect c (mem s)"
  by (simp add: libuv_def)

lemma closing_handles_libuv [simp]: "closing_handles (libuv c s) = closing_handles s"
  by (simp add: libuv_def)

lemma calls_watcher_ffi_close:
  "calls (watcher_ffi_close h s) = calls s @ (if live s h then [UvClose h] else [])"
  by (simp add: watcher_ffi_close_def live_def uv_is_closing_def Let_def)

lemma live_watcher_ffi_close: "\<not> live (watcher_ffi_close h s) h"
  by (simp add: watcher_ffi_close_def live_def uv_is_closing_def Let_def)

section \<open>Claims on the native-call wrapper and the close request\<close>

text \<open>
  C7. A wrapped native call that returns a negative status raises \<open>UVFuncallError\<close>, and
  the message holds the native error name, the native error message and the \<open>repr\<close> of the
  arguments the native function was called with (a leading watcher instance is not one of
  them); a call that returns a non-negative status or \<open>None\<close> returns that result and raises
  nothing.
\<close>

theorem wrap_raises_iff_negative:
  fixes libuv_func :: "'a pyarg list \<Rightarrow> 'k \<Rightarrow> int option"
  assumes "passed = (if args \<noteq> [] \<and> is_watcher (hd args) then tl args else args)"
  shows "(\<forall>r. libuv_func passed kwargs = Some r \<and> r < 0 \<longrightarrow>
            (\<exists>msg. wrap en se ra rk libuv_func args kwargs = Inl (UVFuncallError msg) \<and>
                   sublist (en r) msg \<and> sublist (se r) msg \<and> sublist (ra passed) msg)) \<and>
         ((libuv_func passed kwargs = None \<or> (\<exists>r. libuv_func passed kwargs = Some r \<and> 0 \<le> r)) \<longrightarrow>
            wrap en se ra rk libuv_func args kwargs = Inr (libuv_func passed kwargs))"
proof (intro conjI allI impI)
  fix r
  assume neg: "libuv_func passed kwargs = Some r \<and> r < 0"
  let ?msg = "en r @ '' '' @ se r @ '' Args: '' @ ra passed @ '' KWARGS: '' @ rk kwargs"
  have w: "wrap en se ra rk libuv_func args kwargs = Inl (UVFuncallError ?msg)"
    using neg assms by (simp add: wrap_def Let_def)
  have "sublist (en r) ?msg"
    using sublist_appendI [of "en r" "[]" "'' '' @ se r @ '' Args: '' @ ra passed @ '' KWARGS: '' @ rk kwargs"]
    by simp
  moreover have "sublist (se r) ?msg"
    using sublist_appendI [of "se r" "en r @ '' ''" "'' Args: '' @ ra passed @ '' KWARGS: '' @ rk kwargs"]
    by simp
  moreover have "sublist (ra passed) ?msg"
    using sublist_appendI [of "ra passed" "en r @ '' '' @ se r @ '' Args: ''" "'' KWARGS: '' @ rk kwargs"]
    by simp
  ultimately show "\<exists>msg. wrap en se ra rk libuv_func args kwargs = Inl (UVFuncallError msg) \<and>
      sublist (en r) msg \<and> sublist (se r) msg \<and> sublist (ra passed) msg"
    using w by blast
next
  assume "libuv_func passed kwargs = None \<or> (\<exists>r. libuv_func passed kwargs = Some r \<and> 0 \<le> r)"
  then show "wrap en se ra rk libuv_func args kwargs = Inr (libuv_func passed kwargs)"
    using assms by (auto simp: wrap_def Let_def)
qed

theorem wrap_raises_iff_negative_witness:
  "(\<exists>msg. wrap (\<lambda>_. ''EBADF'') (\<lambda>_. ''bad file descriptor'')
            (\<lambda>as. if as = [Plain (7::int)] then ''(7,)'' else ''(<watcher>, 7)'') (\<lambda>_. ''{}'')
            (\<lambda>_ _. Some (- 9)) [WatcherObj, Plain 7] () = Inl (UVFuncallError msg) \<and>
          sublist ''EBADF'' msg \<and> sublist ''bad file descriptor'' msg \<and> sublist ''(7,)'' msg) \<and>
   wrap (\<lambda>_. ''EBADF'') (\<lambda>_. ''bad file descriptor'')
            (\<lambda>as. if as = [Plain (7::int)] then ''(7,)'' else ''(<watcher>, 7)'') (\<lambda>_. ''{}'')
            (\<lambda>_ _. Some 0) [WatcherObj, Plain 7] () = Inr (Some 0) \<and>
   wrap (\<lambda>_. ''EBADF'') (\<lambda>_. ''bad file descriptor'')
            (\<lambda>as. if as = [Plain (7::int)] then ''(7,)'' else ''(<watcher>, 7)'') (\<lambda>_. ''{}'')
            (\<lambda>_ _. None) [WatcherObj, Plain 7] () = Inr None"
proof -
  have p: "[Plain (7::int)] =
      (if [WatcherObj, Plain (7::int)] \<noteq> [] \<and> is_watcher (hd [WatcherObj, Plain (7::int)])
       then tl [WatcherObj, Plain 7] else [WatcherObj, Plain 7])"
    by simp
  note neg = wrap_raises_iff_negative [OF p, where libuv_func = "\<lambda>_ _. Some (- 9)" and kwargs = "()"
      and en = "\<lambda>_. ''EBADF''" and se = "\<lambda>_. ''bad file descriptor''"
      and ra = "\<lambda>as. if as = [Plain (7::int)] then ''(7,)'' else ''(<watcher>, 7)''" and rk = "\<lambda>_. ''{}''"]
  note zero = wrap_raises_iff_negative [OF p, where libuv_func = "\<lambda>_ _. Some 0" and kwargs = "()"
      and en = "\<lambda>_. ''EBADF''" and se = "\<lambda>_. ''bad file descriptor''"
      and ra = "\<lambda>as. if as = [Plain (7::int)] then ''(7,)'' else ''(<watcher>, 7)''" and rk = "\<lambda>_. ''{}''"]
  note none = wrap_raises_iff_negative [OF p, where libuv_func = "\<lambda>_ _. None" and kwargs = "()"
      and en = "\<lambda>_. ''EBADF''" and se = "\<lambda>_. ''bad file descriptor''"
      and ra = "\<lambda>as. if as = [Plain (7::int)] then ''(7,)'' else ''(<watcher>, 7)''" and rk = "\<lambda>_. ''{}''"]
  show ?thesis
    using neg zero none by simp
qed

text \<open>
  C3. A close request is idempotent: a second request changes nothing, so two requests on
  a live handle make exactly one native close call. On a handle whose \<open>type\<close> field is
  unset, or that is already closing, a request makes no native call and adds nothing to
  the closing set; all it writes is the \<open>data\<close> field, which it clears. The close callback
  of a handle closed this way finds it in the closing set, and a request made after the
  callback still makes no native call.
\<close>

theorem watcher_ffi_close_idempotent:
  "watcher_ffi_close h (watcher_ffi_close h s) = watcher_ffi_close h s \<and>
   calls (watcher_ffi_close h (watcher_ffi_close h s)) =
     calls s @ (if live s h then [UvClose h] else []) \<and>
   (\<not> live s h \<longrightarrow>
      watcher_ffi_close h s = s\<lparr>mem := (mem s)(h := (mem s h)\<lparr>hdata := None\<rparr>)\<rparr>) \<and>
   (live s h \<longrightarrow> snd (uv_close_callback h (watcher_ffi_close h s)) = None) \<and>
   calls (watcher_ffi_close h (fst (uv_close_callback h (watcher_ffi_close h s)))) =
     calls s @ (if live s h then [UvClose h] else [])"
proof (intro conjI impI)
  show idem: "watcher_ffi_close h (watcher_ffi_close h s) = watcher_ffi_close h s"
    by (simp add: watcher_ffi_close_def uv_is_closing_def libuv_def Let_def)
  show "calls (watcher_ffi_close h (watcher_ffi_close h s)) =
      calls s @ (if live s h then [UvClose h] else [])"
    by (simp only: idem calls_watcher_ffi_close)
  show "watcher_ffi_close h s = s\<lparr>mem := (mem s)(h := (mem s h)\<lparr>hdata := None\<rparr>)\<rparr>"
    if "\<not> live s h"
    using that by (auto simp: watcher_ffi_close_def uv_is_closing_def live_def Let_def)
  show "snd (uv_close_callback h (watcher_ffi_close h s)) = None" if "live s h"
    using that by (simp add: uv_close_callback_def watcher_ffi_close_def uv_is_closing_def live_def Let_def)
  have "\<not> live (fst (uv_close_callback h (watcher_ffi_close h s))) h"
    using live_watcher_ffi_close [of h s] by (simp add: uv_close_callback_def live_def)
  moreover have "calls (fst (uv_close_callback h (watcher_ffi_close h s))) = calls (watcher_ffi_close h s)"
    by (simp add: uv_close_callback_def)
  ultimately show "calls (watcher_ffi_close h (fst (uv_close_callback h (watcher_ffi_close h s)))) =
      calls s @ (if live s h then [UvClose h] else [])"
    by (simp add: calls_watcher_ffi_close)
qed

theorem watcher_ffi_close_idempotent_witness:
  "calls (watcher_ffi_close 3 (watcher_ffi_close 3 (libuv (UvInit Poll 3 [7]) world0))) =
     [UvInit Poll 3 [7], UvClose 3] \<and>
   calls (watcher_ffi_close 3 (watcher_ffi_close 3 world0)) = [] \<and>
   watcher_ffi_close 3 world0 = world0"
proof -
  have l: "live (libuv (UvInit Poll 3 [7]) world0) 3"
    by (simp add: live_def world0_def)
  have n: "\<not> live world0 3"
    by (simp add: live_def world0_def)
  have e: "world0\<lparr>mem := (mem world0)(3 := (mem world0 3)\<lparr>hdata := None\<rparr>)\<rparr> = world0"
    by (auto simp: world0_def)
  have c0: "calls world0 = []"
    by (simp add: world0_def)
  have a: "calls (watcher_ffi_close 3 (watcher_ffi_close 3 (libuv (UvInit Poll 3 [7]) world0))) =
      calls (libuv (UvInit Poll 3 [7]) world0) @ [UvClose 3]"
    using watcher_ffi_close_idempotent [of 3 "libuv (UvInit Poll 3 [7]) world0", THEN conjunct2, THEN conjunct1] l
    by simp
  have b: "calls (watcher_ffi_close 3 (watcher_ffi_close 3 world0)) = calls world0"
    and c: "watcher_ffi_close 3 world0 = world0"
    using watcher_ffi_close_idempotent [of 3 world0, THEN conjunct2, THEN conjunct1]
      watcher_ffi_close_idempotent [of 3 world0, THEN conjunct2, THEN conjunct2, THEN conjunct1] n e
    by simp_all
  show ?thesis
    using a b c c0 by simp
qed

section \<open>Claims on \<open>send\<close> and \<open>ref\<close>\<close>

text \<open>
  C8. \<open>send()\<close> on an async watcher whose native handle is closing raises and makes no
  native call (the state is left as it was); when the handle is not closing, \<open>send()\<close> makes
  the native wakeup-send call on it and raises nothing.
\<close>

theorem async_send_closing_raises:
  assumes "w_watcher s = Some h"
  shows "(uv_is_closing s h \<longrightarrow> async_send s = (s, Some (Exception ''Closing handle''))) \<and>
         (\<not> uv_is_closing s h \<longrightarrow>
            snd (async_send s) = None \<and> calls (fst (async_send s)) = calls s @ [UvAsyncSend h])"
  using assms by (simp add: async_send_def)

theorem async_send_closing_raises_witness:
  "async_send (watcher_ffi_close 4 (fst (async_start native_ok 1 [] (watcher0 Async 4 [])))) =
     (watcher_ffi_close 4 (fst (async_start native_ok 1 [] (watcher0 Async 4 []))),
      Some (Exception ''Closing handle'')) \<and>
   snd (async_send (fst (async_start native_ok 1 [] (watcher0 Async 4 [])))) = None \<and>
   calls (fst (async_send (fst (async_start native_ok 1 [] (watcher0 Async 4 []))))) =
     [UvInit Async 4 [], UvAsyncSend 4]"
proof -
  define sa where "sa = fst (async_start native_ok 1 [] (watcher0 Async 4 []))"
  have a: "w_watcher sa = Some 4" "\<not> uv_is_closing sa 4" "calls sa = [UvInit Async 4 []]"
    "htype (mem sa 4) \<noteq> None"
    by (simp_all add: sa_def async_start_def watcher_start_def watcher0_def async_watcher_ffi_init_def
        async_watcher_ffi_start_def world0_def uv_is_closing_def libuv_def)
  have c: "w_watcher (watcher_ffi_close 4 sa) = Some 4" "uv_is_closing (watcher_ffi_close 4 sa) 4"
    using a by (simp_all add: watcher_ffi_close_def uv_is_closing_def Let_def libuv_def)
  show ?thesis
    using async_send_closing_raises [OF a(1)] async_send_closing_raises [OF c(1)] a c
    unfolding sa_def [symmetric] by simp
qed

text \<open>
  C9. Setting \<open>ref\<close> to \<open>False\<close> on a watcher that has no native handle yet raises nothing
  and changes nothing; \<open>ref\<close> then reads \<open>None\<close>; and a later \<open>start\<close> does what it would
  have done without the unref.
\<close>

theorem unref_without_handle_is_noop:
  assumes "w_watcher s = None"
  shows "set_ref False s = (s, None) \<and>
         get_ref (fst (set_ref False s)) = None \<and>
         start_watcher nv callback args (fst (set_ref False s)) = start_watcher nv callback args s"
  using assms by (simp add: set_ref_def watcher_ffi_unref_def only_if_watcher_def get_ref_def)

theorem unref_without_handle_is_noop_witness:
  "set_ref False (watcher0 Idle 2 []) = (watcher0 Idle 2 [], None) \<and>
   get_ref (fst (set_ref False (watcher0 Idle 2 []))) = None \<and>
   snd (start_watcher native_ok 5 [] (fst (set_ref False (watcher0 Idle 2 [])))) = None \<and>
   calls (fst (start_watcher native_ok 5 [] (fst (set_ref False (watcher0 Idle 2 []))))) =
     [UvInit Idle 2 [], UvStart 2 []] \<and>
   get_ref (fst (start_watcher native_ok 5 [] (fst (set_ref False (watcher0 Idle 2 []))))) = Some True"
proof -
  have n: "w_watcher (watcher0 Idle 2 []) = None"
    by (simp add: watcher0_def)
  have st: "snd (start_watcher native_ok 5 [] (watcher0 Idle 2 [])) = None"
    "calls (fst (start_watcher native_ok 5 [] (watcher0 Idle 2 []))) = [UvInit Idle 2 [], UvStart 2 []]"
    "get_ref (fst (start_watcher native_ok 5 [] (watcher0 Idle 2 []))) = Some True"
    by (simp_all add: start_watcher_def watcher_start_def watcher0_def watcher_ffi_init_def
        watcher_ffi_start_def world0_def libuv_def get_ref_def uv_has_ref_def)
  show ?thesis
    using unref_without_handle_is_noop [OF n, of native_ok 5 "[]"] st by auto
qed

section \<open>Claims on the timer\<close>

text \<open>
  C5. When the timer's native handle is initialised with \<open>(after, repeat)\<close>, each of the two
  that is non-zero and below 0.001 is replaced by exactly 0.001 and one warning is emitted
  for it; nothing is raised. The native start that follows is called with the stored
  durations in whole milliseconds, so a clamped duration arms the native timer with 1 ms.
\<close>

theorem timer_clamps_below_one_ms:
  assumes "w_watcher s = Some h"
    and "0 \<le> uv_status nv (calls s) (UvInit Timer h [])"
    and "timer_watcher_ffi_init nv (after, repeat) s = (s1, r)"
  shows "r = None \<and>
         t_after s1 = (if after \<noteq> 0 \<and> after < 1 / 1000 then 1 / 1000 else after) \<and>
         t_repeat s1 = (if repeat \<noteq> 0 \<and> repeat < 1 / 1000 then 1 / 1000 else repeat) \<and>
         warnings s1 = warnings s @ (if after \<noteq> 0 \<and> after < 1 / 1000 then [clamp_warning] else [])
                                  @ (if repeat \<noteq> 0 \<and> repeat < 1 / 1000 then [clamp_warning] else []) \<and>
         (\<not> t_again s \<and>
          0 \<le> uv_status nv (calls s1) (UvStart h [py_int (t_after s1 * 1000), py_int (t_repeat s1 * 1000)]) \<longrightarrow>
            timer_watcher_ffi_start nv s1 =
              (libuv (UvStart h [py_int (t_after s1 * 1000), py_int (t_repeat s1 * 1000)]) s1, None)) \<and>
         (after \<noteq> 0 \<and> after < 1 / 1000 \<longrightarrow> py_int (t_after s1 * 1000) = 1) \<and>
         (repeat \<noteq> 0 \<and> repeat < 1 / 1000 \<longrightarrow> py_int (t_repeat s1 * 1000) = 1)"
  using assms
  by (auto simp: timer_watcher_ffi_init_def timer_watcher_ffi_start_def LIB_eq Let_def libuv_def py_int_def
      split: if_splits)

theorem timer_clamps_below_one_ms_witness:
  "snd (timer_watcher_ffi_init native_ok (5 / 10000, 0) ((timer0 (5 / 10000) 0 9)\<lparr>w_watcher := Some 9\<rparr>)) = None \<and>
   t_after (fst (timer_watcher_ffi_init native_ok (5 / 10000, 0) ((timer0 (5 / 10000) 0 9)\<lparr>w_watcher := Some 9\<rparr>))) =
     1 / 1000 \<and>
   warnings (fst (timer_watcher_ffi_init native_ok (5 / 10000, 0) ((timer0 (5 / 10000) 0 9)\<lparr>w_watcher := Some 9\<rparr>))) =
     [clamp_warning] \<and>
   calls (fst (timer_watcher_ffi_start native_ok
     (fst (timer_watcher_ffi_init native_ok (5 / 10000, 0) ((timer0 (5 / 10000) 0 9)\<lparr>w_watcher := Some 9\<rparr>))))) =
     [UvInit Timer 9 [], UvStart 9 [1, 0]] \<and>
   snd (timer_start native_ok 1 [] (timer0 (5 / 10000) 0 9)) = None \<and>
   calls (fst (timer_start native_ok 1 [] (timer0 (5 / 10000) 0 9))) = [UvInit Timer 9 [], UvStart 9 [1, 0]]"
proof -
  define s where "s = (timer0 (5 / 10000) 0 9)\<lparr>w_watcher := Some 9\<rparr>"
  obtain s1 r where eq: "timer_watcher_ffi_init native_ok (5 / 10000, 0) s = (s1, r)"
    by (cases "timer_watcher_ffi_init native_ok (5 / 10000, 0) s")
  have w: "w_watcher s = Some 9" and ok: "0 \<le> uv_status native_ok (calls s) (UvInit Timer 9 [])"
    and na: "\<not> t_again s" and ws: "warnings s = []"
    by (simp_all add: s_def timer0_def native_ok_def)
  have c1: "calls s1 = [UvInit Timer 9 []]"
    using eq by (auto simp: timer_watcher_ffi_init_def s_def timer0_def Let_def libuv_def)
  note t = timer_clamps_below_one_ms [OF w ok eq]
  have r: "r = None" and a: "t_after s1 = 1 / 1000" and rp: "t_repeat s1 = 0"
    and wn: "warnings s1 = [clamp_warning]"
    using t ws by simp_all
  have st: "timer_watcher_ffi_start native_ok s1 = (libuv (UvStart 9 [1, 0]) s1, None)"
    using t na a rp by (simp add: native_ok_def py_int_def)
  have full: "snd (timer_start native_ok 1 [] (timer0 (5 / 10000) 0 9)) = None"
    "calls (fst (timer_start native_ok 1 [] (timer0 (5 / 10000) 0 9))) = [UvInit Timer 9 [], UvStart 9 [1, 0]]"
    by (simp_all add: timer_start_def watcher_start_def timer_watcher_ffi_init_def timer_watcher_ffi_start_def
        timer0_def Let_def libuv_def py_int_def world0_def)
  show ?thesis
    unfolding s_def [symmetric] eq using r a wn st c1 full by simp
qed

text \<open>
  C6 (as amended). \<open>again\<close> on a timer that is not active (never started, or started and
  since stopped) is the same as \<open>start\<close> with the same arguments; on an active timer it
  makes the native restart call \<open>uv_timer_again\<close> instead of the native start, and leaves the
  \<open>_again\<close> flag cleared.
\<close>

theorem timer_again_start_unless_active:
  "(\<not> watcher_active s \<longrightarrow> timer_again nv callback args s = timer_start nv callback args s) \<and>
   (watcher_active s \<and> w_watcher s = Some h \<longrightarrow>
      timer_again nv callback args s =
        ((libuv (UvTimerAgain h) s)\<lparr>w_callback := Some callback, w_args := args, w_handle := True,
            w_state := Active, t_again := False\<rparr>, None))"
  by (auto simp: timer_again_def timer_start_def watcher_start_def watcher_active_def
      timer_watcher_ffi_start_def libuv_def)

theorem timer_again_start_unless_active_witness:
  "timer_again native_ok 1 [] (timer0 1 1 9) = timer_start native_ok 1 [] (timer0 1 1 9) \<and>
   calls (fst (timer_again native_ok 1 [] (timer0 1 1 9))) = [UvInit Timer 9 [], UvStart 9 [1000, 1000]] \<and>
   calls (fst (timer_again native_ok 1 [] (fst (timer_start native_ok 1 [] (timer0 1 1 9))))) =
     [UvInit Timer 9 [], UvStart 9 [1000, 1000], UvTimerAgain 9]"
proof -
  define s where "s = fst (timer_start native_ok 1 [] (timer0 1 1 9))"
  have n: "\<not> watcher_active (timer0 1 1 9)"
    by (simp add: watcher_active_def timer0_def)
  have a: "watcher_active s \<and> w_watcher s = Some 9"
    and c: "calls s = [UvInit Timer 9 [], UvStart 9 [1000, 1000]]"
    by (simp_all add: s_def watcher_active_def timer_start_def watcher_start_def timer_watcher_ffi_init_def
        timer_watcher_ffi_start_def timer0_def Let_def libuv_def py_int_def world0_def)
  have "timer_again native_ok 1 [] (timer0 1 1 9) = timer_start native_ok 1 [] (timer0 1 1 9)"
    using timer_again_start_unless_active [of "timer0 1 1 9" native_ok 1 "[]"] n by simp
  moreover have "calls (fst (timer_again native_ok 1 [] s)) = calls s @ [UvTimerAgain 9]"
    using timer_again_start_unless_active [of s native_ok 1 "[]" 9] a by (simp add: libuv_def)
  ultimately show ?thesis
    using c by (simp add: s_def)
qed

text \<open>
  The claim as first stated fails on a timer that was started and then stopped: \<open>again\<close>
  on it makes the native start call, not the native restart call.
\<close>

theorem timer_again_after_stop_counterexample:
  "calls (fst (timer_again native_ok 1 []
       (fst (timer_stop native_ok (fst (timer_start native_ok 1 [] (timer0 1 1 9))))))) =
     [UvInit Timer 9 [], UvStart 9 [1000, 1000], UvStop 9, UvStart 9 [1000, 1000]] \<and>
   UvTimerAgain 9 \<notin> set (calls (fst (timer_again native_ok 1 []
       (fst (timer_stop native_ok (fst (timer_start native_ok 1 [] (timer0 1 1 9))))))))"
proof -
  have "calls (fst (timer_again native_ok 1 []
       (fst (timer_stop native_ok (fst (timer_start native_ok 1 [] (timer0 1 1 9))))))) =
     [UvInit Timer 9 [], UvStart 9 [1000, 1000], UvStop 9, UvStart 9 [1000, 1000]]"
    by (simp add: timer_again_def timer_start_def timer_stop_def watcher_start_def watcher_stop_def
        watcher_active_def timer_watcher_ffi_start_def timer_watcher_ffi_init_def watcher_ffi_stop_def timer0_def
        libuv_def py_int_def Let_def world0_def)
  then show ?thesis by simp
qed

section \<open>The invariant of the I/O watcher\<close>

lemma refs_ok_cong:
  "objs s' = objs s \<Longrightarrow> io_multiplex_watchers s' = io_multiplex_watchers s \<Longrightarrow> refs_ok s' = refs_ok s"
  by (simp add: refs_ok_def multiplex_watchers_def)

lemma mask_ok_cong:
  "objs s' = objs s \<Longrightarrow> io_multiplex_watchers s' = io_multiplex_watchers s \<Longrightarrow>
   io_events s' = io_events s \<Longrightarrow> mask_ok s' = mask_ok s"
  by (simp add: mask_ok_def registered_events_def multiplex_watchers_def)

lemma set_events_fields:
  assumes "io_set_events nv ev s = (s', None)"
  shows "io_events s' = ev" "objs s' = objs s" "io_multiplex_watchers s' = io_multiplex_watchers s"
    "w_state s' = w_state s"
  using assms
  by (auto simp: io_set_events_def LIB_eq libuv_def Let_def watcher_active_def split: if_splits option.splits)

lemma set_events_life:
  assumes "io_set_events nv ev s = (s', None)" "life_ok s"
  shows "life_ok s'"
  using assms
  by (auto simp: io_set_events_def LIB_eq libuv_def Let_def watcher_active_def life_ok_def split: if_splits option.splits)

lemma calc_fields:
  assumes "io_calc_and_update_events nv s = (s', None)"
  shows "io_events s' = registered_events s" "objs s' = objs s" "io_multiplex_watchers s' = io_multiplex_watchers s"
    "w_state s' = w_state s"
  using assms set_events_fields[of nv _ s s']
  by (auto simp: io_calc_and_update_events_def registered_events_def)

lemma calc_ok:
  assumes "io_calc_and_update_events nv s = (s', None)" "life_ok s"
  shows "life_ok s'" "mask_ok s'"
proof -
  note f = calc_fields[OF assms(1)]
  show "life_ok s'" using assms(1,2) set_events_life by (auto simp: io_calc_and_update_events_def)
  show "mask_ok s'" using f by (simp add: mask_ok_def registered_events_def multiplex_watchers_def)
qed

lemma registered_events_objs_update:
  assumes "mw_events w' = mw_events (objs s ! i)"
  shows "registered_events (s\<lparr>objs := (objs s)[i := w']\<rparr>) = registered_events s"
proof -
  have "(\<lambda>w ev. ev OR mw_events ((objs s)[i := w'] ! w)) = (\<lambda>w ev. ev OR mw_events (objs s ! w))"
    using assms by (intro ext) (cases "i < length (objs s)", auto simp: nth_list_update list_update_beyond not_less)
  then show ?thesis by (simp add: registered_events_def multiplex_watchers_def)
qed

lemma multiplex_ok:
  assumes "io_multiplex nv ev s = (s', Inr w)" "io_inv s"
  shows "io_inv s'"
proof -
  obtain ws where ws: "io_multiplex_watchers s = Some ws"
    using assms(1) by (auto simp: io_multiplex_def split: option.splits)
  define s1 where "s1 = s\<lparr>objs := objs s @ [\<lparr>mw_events = ev, mw_callback = None, mw_args = Some [],
                                        mw_pass_events = False, mw_watcher_ref = True\<rparr>],
                     io_multiplex_watchers := Some (ws @ [length (objs s)])\<rparr>"
  have c: "io_calc_and_update_events nv s1 = (s', None)"
    using assms(1) ws by (auto simp: io_multiplex_def s1_def Let_def split: option.splits prod.splits)
  have l0: "life_ok s" and r0: "refs_ok s" using assms(2) by (simp_all add: io_inv_def)
  have l1: "life_ok s1" using l0 ws by (auto simp: life_ok_def s1_def)
  have r1: "refs_ok s1" using r0 ws
    by (auto simp: refs_ok_def s1_def multiplex_watchers_def nth_append less_Suc_eq)
  note f = calc_fields[OF c]
  have "refs_ok s'" using r1 f refs_ok_cong[of s' s1] by simp
  moreover have "act_ok s'" using f by (simp add: act_ok_def multiplex_watchers_def s1_def)
  ultimately show ?thesis using calc_ok[OF c l1] by (simp add: io_inv_def)
qed

lemma objs_update_refs:
  assumes "refs_ok s" "mw_watcher_ref w' = mw_watcher_ref (objs s ! i)"
  shows "refs_ok (s\<lparr>objs := (objs s)[i := w']\<rparr>)"
proof (cases "i < length (objs s)")
  case True
  then have "\<And>j. mw_watcher_ref ((objs s)[i := w'] ! j) = mw_watcher_ref (objs s ! j)"
    using assms(2) by (simp add: nth_list_update)
  then show ?thesis using assms(1) by (simp add: refs_ok_def multiplex_watchers_def)
next
  case False
  then have "(objs s)[i := w'] = objs s" by (simp add: list_update_beyond)
  then show ?thesis using assms(1) by (simp add: refs_ok_def multiplex_watchers_def)
qed

lemma objs_update_life: "life_ok (s\<lparr>objs := xs\<rparr>) = life_ok s"
  by (simp add: life_ok_def)

lemma objs_update_act: "act_ok (s\<lparr>objs := xs\<rparr>) = act_ok s"
  by (simp add: act_ok_def multiplex_watchers_def)

lemma objs_update_mask:
  assumes "mask_ok s" "mw_events w' = mw_events (objs s ! i)"
  shows "mask_ok (s\<lparr>objs := (objs s)[i := w']\<rparr>)"
  using assms registered_events_objs_update[OF assms(2)]
  by (auto simp: mask_ok_def multiplex_watchers_def)

lemma objs_update_inv:
  assumes "io_inv s" "mw_events w' = mw_events (objs s ! i)" "mw_watcher_ref w' = mw_watcher_ref (objs s ! i)"
  shows "io_inv (s\<lparr>objs := (objs s)[i := w']\<rparr>)"
  using assms by (simp add: io_inv_def objs_update_life objs_update_act objs_update_mask objs_update_refs)

lemma io_start_ok:
  assumes "io_start nv c a s = (s', None)" "life_ok s"
  shows "life_ok s'" "objs s' = objs s" "io_multiplex_watchers s' = io_multiplex_watchers s" "io_events s' = io_events s"
  using assms
  by (cases "w_state s";
      auto simp: io_start_def watcher_start_def life_ok_def and_then_def
      watcher_ffi_init_def io_watcher_ffi_start_def LIB_eq libuv_def
      split: if_splits option.splits prod.splits)+

lemma io_stop_ok:
  assumes "io_stop nv s = (s', None)" "life_ok s"
  shows "life_ok s'" "objs s' = objs s" "io_multiplex_watchers s' = io_multiplex_watchers s" "io_events s' = io_events s"
    "w_state s' \<noteq> Active"
  using assms
  by (cases "w_state s";
      auto simp: io_stop_def watcher_stop_def life_ok_def and_then_def
      watcher_ffi_stop_def LIB_eq libuv_def
      split: if_splits option.splits prod.splits)+

lemma start_ok:
  assumes "multiplexwatcher_start nv i c a p s = (s', None)" "io_inv s" "i < length (objs s)"
  shows "io_inv s'"
proof -
  define s1 where "s1 = s\<lparr>objs := (objs s)[i := (objs s ! i)\<lparr>mw_pass_events := p,
                      mw_callback := c, mw_args := Some a\<rparr>]\<rparr>"
  have i1: "io_inv s1" unfolding s1_def by (rule objs_update_inv[OF assms(2)]) simp_all
  show ?thesis
  proof (cases "mw_watcher_ref (objs s1 ! i) \<and> \<not> watcher_active s1")
    case True
    then have st: "io_start nv io_callback_id [] s1 = (s', None)"
      using assms(1) by (simp add: multiplexwatcher_start_def s1_def [symmetric] Let_def io_io_start_def)
    have "i < length (objs s1)" using assms(3) by (simp add: s1_def)
    then have ne: "multiplex_watchers s1 \<noteq> []" using True i1 by (auto simp: io_inv_def refs_ok_def)
    note f = io_start_ok[OF st]
    have "life_ok s'" using f(1) i1 by (simp add: io_inv_def)
    moreover have "refs_ok s'" using refs_ok_cong[of s' s1] f i1 by (simp add: io_inv_def)
    moreover have "mask_ok s'" using mask_ok_cong[of s' s1] f i1 by (simp add: io_inv_def)
    moreover have "act_ok s'" using ne f i1 by (simp add: act_ok_def multiplex_watchers_def io_inv_def)
    ultimately show ?thesis by (simp add: io_inv_def)
  next
    case False
    then have "s' = s1"
      using assms(1) by (auto simp: multiplexwatcher_start_def s1_def [symmetric] Let_def)
    then show ?thesis using i1 by simp
  qed
qed

lemma stop_ok:
  assumes "multiplexwatcher_stop nv i s = (s', None)" "io_inv s" "i < length (objs s)"
  shows "io_inv s'"
proof -
  define s1 where "s1 = s\<lparr>objs := (objs s)[i := (objs s ! i)\<lparr>mw_callback := None, mw_pass_events := False,
                      mw_args := None\<rparr>]\<rparr>"
  have i1: "io_inv s1" unfolding s1_def by (rule objs_update_inv[OF assms(2)]) simp_all
  show ?thesis
  proof (cases "mw_watcher_ref (objs s1 ! i) \<and> \<not> list_ex (\<lambda>w. mw_callback (objs s1 ! w) \<noteq> None) (multiplex_watchers s1)")
    case True
    then have st: "io_stop nv s1 = (s', None)"
      using assms(1) by (simp add: multiplexwatcher_stop_def s1_def [symmetric] Let_def io_io_maybe_stop_def)
    note f = io_stop_ok[OF st]
    have "life_ok s'" using f(1) i1 by (simp add: io_inv_def)
    moreover have "refs_ok s'" using refs_ok_cong[of s' s1] f i1 by (simp add: io_inv_def)
    moreover have "mask_ok s'" using mask_ok_cong[of s' s1] f i1 by (simp add: io_inv_def)
    moreover have "act_ok s'" using f i1 by (simp add: act_ok_def io_inv_def)
    ultimately show ?thesis by (simp add: io_inv_def)
  next
    case False
    then have "s' = s1"
      using assms(1) by (auto simp: multiplexwatcher_stop_def s1_def [symmetric] Let_def io_io_maybe_stop_def split: if_splits)
    then show ?thesis using i1 by simp
  qed
qed


lemma watcher_ffi_close_fields [simp]:
  fixes s :: "'z io_scheme"
  shows "w_state (watcher_ffi_close h s) = w_state s"
    "w_watcher (watcher_ffi_close h s) = w_watcher s"
    "w_slot (watcher_ffi_close h s) = w_slot s"
    "w_handle (watcher_ffi_close h s) = w_handle s"
    "io_events (watcher_ffi_close h s) = io_events s"
    "objs (watcher_ffi_close h s) = objs s"
    "io_multiplex_watchers (watcher_ffi_close h s) = io_multiplex_watchers s"
  by (simp_all add: watcher_ffi_close_def Let_def libuv_def)

lemma hactive_watcher_ffi_close:
  "hactive (mem (watcher_ffi_close h s) x) \<Longrightarrow> hactive (mem s x)"
  by (simp add: watcher_ffi_close_def Let_def libuv_def split: if_splits)

lemma watcher_stop_inactive:
  "w_state s \<noteq> Active \<Longrightarrow> watcher_stop f s = (s, None)"
  by (simp add: watcher_stop_def)

lemma io_close_ok:
  assumes "io_close nv s = (s', None)" "life_ok s" "w_state s \<noteq> Active"
  shows "life_ok s'" "objs s' = objs s" "io_multiplex_watchers s' = None" "w_state s' = Closed"
    "io_events s' = io_events s"
proof -
  have nc: "w_state s \<noteq> Closed"
    using assms(1,2) by (auto simp: io_close_def watcher_close_def life_ok_def Let_def)
  define s1 where "s1 = (case w_watcher s of None \<Rightarrow> s | Some h \<Rightarrow> watcher_ffi_close h s)"
  have wc: "watcher_close (watcher_ffi_stop nv) s = s1\<lparr>w_watcher := None, w_state := Closed\<rparr>"
    using nc assms(3) by (simp add: watcher_close_def watcher_stop_inactive s1_def Let_def)
  have f1: "objs s1 = objs s" "io_multiplex_watchers s1 = io_multiplex_watchers s"
    "io_events s1 = io_events s" "w_slot s1 = w_slot s"
    by (simp_all add: s1_def split: option.splits)
  have h1: "\<not> hactive (mem s1 (w_slot s))"
    using assms(2,3) hactive_watcher_ffi_close[of _ s "w_slot s"]
    by (auto simp: s1_def life_ok_def split: option.splits)
  have ln: "io_multiplex_watchers s \<noteq> None" using nc assms(2) by (simp add: life_ok_def)
  have s': "s' = s1\<lparr>w_watcher := None, w_state := Closed, io_multiplex_watchers := None\<rparr>"
    using assms(1) ln f1 by (auto simp: io_close_def wc Let_def split: option.splits)
  show "life_ok s'" using h1 f1 by (simp add: s' life_ok_def)
  show "objs s' = objs s" "io_multiplex_watchers s' = None" "w_state s' = Closed"
    "io_events s' = io_events s"
    using f1 by (simp_all add: s')
qed

lemma refs_remove:
  assumes "refs_ok s" "io_multiplex_watchers s = Some ws" "objs s1 = objs s"
    "multiplex_watchers s1 = remove1 i ws"
  shows "refs_ok (s1\<lparr>objs := (objs s1)[i := (objs s1 ! i)\<lparr>mw_watcher_ref := False\<rparr>]\<rparr>)"
proof -
  define xs where "xs = (objs s)[i := (objs s ! i)\<lparr>mw_watcher_ref := False\<rparr>]"
  have d: "distinct ws" and a: "\<And>j. j \<in> set ws \<Longrightarrow> j < length (objs s) \<and> mw_watcher_ref (objs s ! j)"
    and b: "\<And>j. j < length (objs s) \<Longrightarrow> mw_watcher_ref (objs s ! j) \<Longrightarrow> j \<in> set ws"
    using assms(1,2) by (simp_all add: refs_ok_def multiplex_watchers_def)
  have st: "set (remove1 i ws) = set ws - {i}" using d by simp
  have len: "length xs = length (objs s)" by (simp add: xs_def)
  have nth: "mw_watcher_ref (xs ! j) = (j \<noteq> i \<and> mw_watcher_ref (objs s ! j))" if "j < length (objs s)" for j
    using that by (cases "j = i") (simp_all add: xs_def)
  have m: "multiplex_watchers (s1\<lparr>objs := xs\<rparr>) = remove1 i ws"
    using assms(4) by (simp add: multiplex_watchers_def)
  have o: "objs (s1\<lparr>objs := xs\<rparr>) = xs" by simp
  have "refs_ok (s1\<lparr>objs := xs\<rparr>)"
    unfolding refs_ok_def m o st len
  proof (intro conjI ballI allI impI)
    fix j assume "j \<in> set ws - {i}"
    then show "j < length (objs s)" "mw_watcher_ref (xs ! j)" using a[of j] nth[of j] by simp_all
  next
    fix j assume "j < length (objs s)" "mw_watcher_ref (xs ! j)"
    then show "j \<in> set ws - {i}" using b[of j] nth[of j] by simp
  next
    show "distinct (remove1 i ws)" using d by simp
  qed
  then show ?thesis by (simp add: xs_def assms(3))
qed

lemma close_ok:
  assumes "multiplexwatcher_close nv i s = (s', None)" "io_inv s" "i < length (objs s)"
  shows "io_inv s'"
proof (cases "mw_watcher_ref (objs s ! i)")
  case False
  then have "s' = s\<lparr>objs := (objs s)[i := (objs s ! i)\<lparr>mw_watcher_ref := False\<rparr>]\<rparr>"
    using assms(1) by (simp add: multiplexwatcher_close_def)
  then show ?thesis using objs_update_inv[OF assms(2), of _ i] False by simp
next
  case True
  obtain s1 where mc: "io_multiplex_closed nv i s = (s1, None)"
    and s': "s' = s1\<lparr>objs := (objs s1)[i := (objs s1 ! i)\<lparr>mw_watcher_ref := False\<rparr>]\<rparr>"
    using assms(1) True by (auto simp: multiplexwatcher_close_def and_then_def split: prod.splits option.splits)
  have l0: "life_ok s" and r0: "refs_ok s" and a0: "act_ok s" using assms(2) by (simp_all add: io_inv_def)
  obtain ws where ws: "io_multiplex_watchers s = Some ws" and iws: "i \<in> set ws"
    using mc by (auto simp: io_multiplex_closed_def split: option.splits if_splits)
  define sA where "sA = s\<lparr>io_multiplex_watchers := Some (remove1 i ws)\<rparr>"
  have lA: "life_ok sA" using l0 ws by (auto simp: life_ok_def sA_def)
  show ?thesis
  proof (cases "remove1 i ws = []")
    case True
    then obtain s2 where "io_stop nv (s\<lparr>io_multiplex_watchers := Some []\<rparr>) = (s2, None)"
      and cl: "io_close nv s2 = (s1, None)"
      using mc ws iws
      by (auto simp: io_multiplex_closed_def Let_def multiplex_watchers_def
          io_no_more_watchers_def and_then_def split: prod.splits option.splits)
    then have st: "io_stop nv sA = (s2, None)"
      using True by (simp add: sA_def)
    note f = io_stop_ok[OF st lA]
    note g = io_close_ok[OF cl f(1) f(5)]
    have "life_ok s'" using g(1) by (simp add: s' objs_update_life)
    moreover have "act_ok s'" using g(4) by (simp add: s' act_ok_def)
    moreover have "mask_ok s'" using g(3) by (simp add: s' mask_ok_def multiplex_watchers_def)
    moreover have "refs_ok s'"
      unfolding s' using r0 ws
    proof (rule refs_remove)
      show "objs s1 = objs s" using g(2) f(2) by (simp add: sA_def)
      show "multiplex_watchers s1 = remove1 i ws" using g(3) True by (simp add: multiplex_watchers_def)
    qed
    ultimately show ?thesis by (simp add: io_inv_def)
  next
    case False
    have "io_multiplex_watchers sA = Some (remove1 i ws)" by (simp add: sA_def)
    with False have c: "io_calc_and_update_events nv sA = (s1, None)"
      using mc ws iws
      by (simp add: io_multiplex_closed_def sA_def [symmetric] Let_def multiplex_watchers_def)
    note f = calc_fields[OF c]
    note k = calc_ok[OF c lA]
    have "life_ok s'" using k(1) by (simp add: s' objs_update_life)
    moreover have "act_ok s'" using f False by (simp add: s' act_ok_def multiplex_watchers_def sA_def)
    moreover have "mask_ok s'" unfolding s' using k(2) by (rule objs_update_mask) simp
    moreover have "refs_ok s'"
      unfolding s' using r0 ws
    proof (rule refs_remove)
      show "objs s1 = objs s" using f by (simp add: sA_def)
      show "multiplex_watchers s1 = remove1 i ws" using f by (simp add: multiplex_watchers_def sA_def)
    qed
    ultimately show ?thesis by (simp add: io_inv_def)
  qed
qed

lemma step_ok:
  assumes "io_step nv x s = (s', None)" "io_inv s"
  shows "io_inv s'"
proof (cases x)
  case (Multiplex ev)
  then obtain w where "io_multiplex nv ev s = (s', Inr w)"
    using assms(1) by (auto split: prod.splits sum.splits)
  then show ?thesis using multiplex_ok assms(2) by blast
next
  case (Start i c a p)
  then show ?thesis using assms start_ok by (auto split: if_splits)
next
  case (Stop i)
  then show ?thesis using assms stop_ok by (auto split: if_splits)
next
  case (Close i)
  then show ?thesis using assms close_ok by (auto split: if_splits)
qed

lemma run_ok:
  assumes "io_run nv xs s = (s', None)" "io_inv s"
  shows "io_inv s'"
  using assms
proof (induction xs arbitrary: s)
  case Nil
  then show ?case by simp
next
  case (Cons x xs)
  obtain s1 r where st: "io_step nv x s = (s1, r)" by (cases "io_step nv x s")
  with Cons.prems(1) have r: "r = None" and rest: "io_run nv xs s1 = (s', None)"
    by (cases r; simp)+
  show ?case using Cons.IH[OF rest] step_ok[OF st[unfolded r] Cons.prems(2)] by simp
qed

lemma io0_inv: "io_inv (io0 fd ev slot)"
  by (simp add: io_inv_def life_ok_def act_ok_def refs_ok_def mask_ok_def io0_def multiplex_watchers_def world0_def)










lemmas io_defs = io_multiplex_def io_calc_and_update_events_def io_set_events_def
  multiplexwatcher_start_def multiplexwatcher_stop_def multiplexwatcher_close_def
  io_multiplex_closed_def io_io_start_def io_io_maybe_stop_def io_start_def io_stop_def io_close_def
  io_no_more_watchers_def watcher_start_def watcher_stop_def watcher_close_def
  watcher_ffi_init_def watcher_ffi_stop_def io_watcher_ffi_start_def watcher_ffi_close_def
  watcher_active_def multiplex_watchers_def uv_is_closing_def libuv_def io0_def world0_def Let_def


section \<open>Claims on the I/O watcher\<close>

text \<open>
  C1 (as amended). After every sequence of \<open>multiplex\<close>, \<open>start\<close>, \<open>stop\<close> and \<open>close\<close> calls
  on a new \<open>io\<close> object and its sub-watchers that raised nothing: while a sub-watcher is
  registered, the stored mask is the union of the masks of all registered sub-watchers,
  started or not; while the \<open>io\<close> object is active, the mask armed on its native handle is
  that union; and while it is not active, nothing is armed.
\<close>

theorem io_armed_mask_is_union_of_registered:
  assumes "io_run nv xs (io0 fd ev slot) = (s, None)"
  shows "(multiplex_watchers s \<noteq> [] \<longrightarrow> io_events s = registered_events s) \<and>
         (watcher_active s \<longrightarrow> armed_events s = Some (registered_events s)) \<and>
         (\<not> watcher_active s \<longrightarrow> armed_events s = None)"
proof -
  have "io_inv s" using run_ok[OF assms io0_inv] .
  then show ?thesis
    by (cases "w_state s")
      (auto simp: io_inv_def life_ok_def act_ok_def mask_ok_def watcher_active_def armed_events_def
        split: option.splits)
qed

theorem io_armed_mask_is_union_of_registered_witness:
  "snd (io_run native_ok [Multiplex UV_READABLE, Start 0 (Some 10) [] False, Multiplex UV_WRITABLE]
          (io0 7 EVENT_MASK 3)) = None \<and>
   armed_events (fst (io_run native_ok
       [Multiplex UV_READABLE, Start 0 (Some 10) [] False, Multiplex UV_WRITABLE] (io0 7 EVENT_MASK 3))) =
     Some (UV_READABLE OR UV_WRITABLE) \<and>
   armed_events (fst (io_run native_ok [Multiplex UV_READABLE] (io0 7 EVENT_MASK 3))) = None"
proof -
  define S where "S = fst (io_run native_ok
       [Multiplex UV_READABLE, Start 0 (Some 10) [] False, Multiplex UV_WRITABLE] (io0 7 EVENT_MASK 3))"
  define T where "T = fst (io_run native_ok [Multiplex UV_READABLE] (io0 7 EVENT_MASK 3))"
  have r: "snd (io_run native_ok
       [Multiplex UV_READABLE, Start 0 (Some 10) [] False, Multiplex UV_WRITABLE] (io0 7 EVENT_MASK 3)) = None"
    by (simp add: io_defs UV_READABLE_def UV_WRITABLE_def EVENT_MASK_def)
  have q: "snd (io_run native_ok [Multiplex UV_READABLE] (io0 7 EVENT_MASK 3)) = None"
    by (simp add: io_defs UV_READABLE_def EVENT_MASK_def)
  have runS: "io_run native_ok
       [Multiplex UV_READABLE, Start 0 (Some 10) [] False, Multiplex UV_WRITABLE] (io0 7 EVENT_MASK 3) = (S, None)"
    using r by (simp add: S_def prod_eq_iff)
  have runT: "io_run native_ok [Multiplex UV_READABLE] (io0 7 EVENT_MASK 3) = (T, None)"
    using q by (simp add: T_def prod_eq_iff)
  have a: "watcher_active S" "registered_events S = UV_READABLE OR UV_WRITABLE"
    by (simp_all add: S_def io_defs registered_events_def UV_READABLE_def UV_WRITABLE_def EVENT_MASK_def)
  have n: "\<not> watcher_active T"
    by (simp add: T_def io_defs UV_READABLE_def EVENT_MASK_def)
  show ?thesis
    using io_armed_mask_is_union_of_registered [OF runS] io_armed_mask_is_union_of_registered [OF runT]
      a n r
    unfolding S_def [symmetric] T_def [symmetric] by simp
qed

text \<open>
  The claim as first stated fails whichever way its active sub-watchers are read. Read as
  the started ones: with a sub-watcher for READ started and one for WRITE registered but
  not started, the armed mask is READ and WRITE together, while the union over the active
  sub-watchers is READ alone. Read as the registered ones: after a single \<open>multiplex\<close> for
  READ on a new \<open>io\<close> object, nothing is armed, while the union is READ.
\<close>

theorem io_armed_mask_counterexample:
  "snd (io_run native_ok [Multiplex 1, Start 0 (Some 10) [] False, Multiplex 2] (io0 7 7 3)) = None \<and>
   armed_events (fst (io_run native_ok [Multiplex 1, Start 0 (Some 10) [] False, Multiplex 2] (io0 7 7 3))) =
     Some 3 \<and>
   active_events (fst (io_run native_ok [Multiplex 1, Start 0 (Some 10) [] False, Multiplex 2] (io0 7 7 3))) =
     1 \<and>
   snd (io_run native_ok [Multiplex 1] (io0 7 7 3)) = None \<and>
   armed_events (fst (io_run native_ok [Multiplex 1] (io0 7 7 3))) = None \<and>
   registered_events (fst (io_run native_ok [Multiplex 1] (io0 7 7 3))) = 1"
  by (simp add: io_defs armed_events_def active_events_def registered_events_def mw_active_def)

text \<open>
  C2. When \<open>close()\<close> on a sub-watcher removes the last one of an \<open>io\<close> object that holds a
  live native handle, and the native stop (made if the object is active) reports no error,
  the call itself stops the handle and makes the native close call on it: when it returns,
  the close is the last native call made, the handle is closing and in the closing set,
  and the \<open>io\<close> object is closed.
\<close>

theorem last_close_closes_native_handle:
  assumes "io_multiplex_watchers s = Some [i]" "i < length (objs s)" "mw_watcher_ref (objs s ! i)"
    and "w_watcher s = Some h" "live s h"
    and "w_state s = Stopped \<or> w_state s = Active"
    and "watcher_active s \<longrightarrow> 0 \<le> uv_status nv (calls s) (UvStop h)"
    and "multiplexwatcher_close nv i s = (s', r)"
  shows "r = None \<and>
         calls s' = calls s @ (if watcher_active s then [UvStop h] else []) @ [UvClose h] \<and>
         uv_is_closing s' h \<and> h \<in> closing_handles s' \<and> \<not> hactive (mem s' h) \<and>
         w_state s' = Closed \<and> w_watcher s' = None \<and> io_multiplex_watchers s' = None \<and>
         \<not> mw_watcher_ref (objs s' ! i)"
  using assms
  apply (cases "w_state s = Active")
   apply (simp_all add: multiplexwatcher_close_def io_multiplex_closed_def multiplex_watchers_def
      io_stop_def watcher_stop_def watcher_ffi_stop_def LIB_eq io_no_more_watchers_def
      io_close_def watcher_close_def watcher_ffi_close_def live_def uv_is_closing_def libuv_def
      watcher_active_def Let_def)
  apply auto
  done

theorem last_close_closes_native_handle_witness:
  "snd (io_run native_ok [Multiplex UV_READABLE, Start 0 (Some 10) [] False, Close 0] (io0 7 EVENT_MASK 3)) = None \<and>
   calls (fst (io_run native_ok [Multiplex UV_READABLE, Start 0 (Some 10) [] False, Close 0] (io0 7 EVENT_MASK 3))) =
     [UvInit Poll 3 [7], UvStart 3 [UV_READABLE], UvStop 3, UvClose 3] \<and>
   uv_is_closing (fst (io_run native_ok [Multiplex UV_READABLE, Start 0 (Some 10) [] False, Close 0]
     (io0 7 EVENT_MASK 3))) 3"
proof -
  define S where "S = fst (io_run native_ok [Multiplex UV_READABLE, Start 0 (Some 10) [] False] (io0 7 EVENT_MASK 3))"
  have r: "io_run native_ok [Multiplex UV_READABLE, Start 0 (Some 10) [] False] (io0 7 EVENT_MASK 3) = (S, None)"
    by (simp add: S_def io_defs UV_READABLE_def EVENT_MASK_def prod_eq_iff)
  have run3: "io_run native_ok [Multiplex UV_READABLE, Start 0 (Some 10) [] False, Close 0] (io0 7 EVENT_MASK 3)
      = multiplexwatcher_close native_ok 0 S"
    using r by (simp add: S_def io_defs UV_READABLE_def EVENT_MASK_def)
  have h: "io_multiplex_watchers S = Some [0]" "0 < length (objs S)" "mw_watcher_ref (objs S ! 0)"
    "w_watcher S = Some 3" "live S 3" "w_state S = Stopped \<or> w_state S = Active"
    "calls S = [UvInit Poll 3 [7], UvStart 3 [UV_READABLE]]" "watcher_active S"
    by (simp_all add: S_def io_defs live_def UV_READABLE_def EVENT_MASK_def)
  have ok: "watcher_active S \<longrightarrow> 0 \<le> uv_status native_ok (calls S) (UvStop 3)"
    by (simp add: native_ok_def)
  obtain S' r' where c: "multiplexwatcher_close native_ok 0 S = (S', r')"
    by (cases "multiplexwatcher_close native_ok 0 S")
  show ?thesis
    using last_close_closes_native_handle [OF h(1-6) ok c] h(7,8)
    unfolding run3 c by simp
qed





section \<open>Claim on simulated watchers\<close>

text \<open>
  C10. The constructor of a simulated watcher first creates its async watcher; when the
  rest of the initialisation then raises, the async watcher is closed before the same
  exception leaves the constructor: unless it was closed already, its native handle, if
  it has one, is no longer live (the native close call has been made on a live handle,
  after the unref that stopping an active async watcher makes).
\<close>

theorem simulated_init_failure_closes_async:
  assumes "loop_async s = (s0, None)" "super_init s0 = (s1, Some e)"
  shows "simulated_init loop_async super_init s = (async_close s1, Some e) \<and>
         w_state (async_close s1) = Closed \<and>
         (\<forall>h. w_watcher s1 = Some h \<and> w_state s1 \<noteq> Closed \<longrightarrow>
            \<not> live (async_close s1) h \<and>
            calls (async_close s1) =
              calls s1 @ (if w_state s1 = Active then [UvUnref h] else []) @
                         (if live s1 h then [UvClose h] else []))"
  using assms
  by (auto simp: simulated_init_def async_close_def watcher_close_def watcher_stop_def async_watcher_ffi_stop_def
      watcher_ffi_unref_def only_if_watcher_def watcher_ffi_close_def live_def uv_is_closing_def
      libuv_def Let_def)


theorem simulated_init_failure_closes_async_witness:
  "simulated_init (\<lambda>s. (s, None)) (\<lambda>s. (s, Some ValueError))
       (fst (async_start native_ok 1 [] (watcher0 Async 4 []))) =
     (async_close (fst (async_start native_ok 1 [] (watcher0 Async 4 []))), Some ValueError) \<and>
   calls (async_close (fst (async_start native_ok 1 [] (watcher0 Async 4 [])))) =
     [UvInit Async 4 [], UvUnref 4, UvClose 4] \<and>
   uv_is_closing (async_close (fst (async_start native_ok 1 [] (watcher0 Async 4 [])))) 4 \<and>
   w_state (async_close (fst (async_start native_ok 1 [] (watcher0 Async 4 [])))) = Closed"
proof -
  define S where "S = fst (async_start native_ok 1 [] (watcher0 Async 4 []))"
  have a: "w_watcher S = Some 4" "w_state S = Active" "live S 4" "calls S = [UvInit Async 4 []]"
    by (simp_all add: S_def async_start_def watcher_start_def watcher0_def async_watcher_ffi_init_def
        async_watcher_ffi_start_def world0_def live_def libuv_def)
  note t = simulated_init_failure_closes_async [where loop_async = "\<lambda>s. (s, None)" and s = S
      and ?s0.0 = S and super_init = "\<lambda>s. (s, Some ValueError)" and ?s1.0 = S and e = ValueError]
  have c: "uv_is_closing (async_close S) 4"
    using a by (simp add: async_close_def watcher_close_def watcher_stop_def async_watcher_ffi_stop_def
        watcher_ffi_unref_def only_if_watcher_def watcher_ffi_close_def uv_is_closing_def
        live_def libuv_def Let_def)
  show ?thesis
    unfolding S_def [symmetric] using t a c by simp
qed

end
